theory Spec2Isabelle
  imports Complex_Main
begin

section \<open>Data model of \<^verbatim>\<open>preprocess_audio.py\<close>\<close>

text \<open>
  The configuration dictionary of \<^verbatim>\<open>main\<close>, which \<^verbatim>\<open>AudioPreprocessor.__init__\<close> copies
  field by field into the object. The preprocessor object is modelled by this record.
\<close>

record config =
  sample_rate :: int
  n_fft :: int
  hop_length :: int
  win_length :: int
  n_mels :: int
  fmin :: int
  fmax :: int
  segment_size :: int

text \<open>A decoded waveform: the samples. Python floats are idealised as reals.\<close>

type_synonym audio = "real list"

text \<open>A two-dimensional numpy array: its \<^verbatim>\<open>shape\<close> and its entries.\<close>

record ndarray =
  shape :: "nat \<times> nat"
  cells :: "real list"

text \<open>The message of a raised Python exception.\<close>

type_synonym exn = string

text \<open>One dictionary appended to \<^verbatim>\<open>metadata\<close> (lines 89 to 97).\<close>

record manifest_record =
  id_r :: nat
  original_file :: string
  audio_file :: string
  mel_file :: string
  audio_length :: nat
  duration :: real
  mel_shape :: "nat \<times> nat"

text \<open>The lines the program prints, kept as structured events.\<close>

datatype event =
    Processing_files nat
  | Error_processing string exn
  | Processed nat
  | Saved_to string
  | Input_dir_not_found
  | Banner string
  | Config_line string int
  | Total_files nat
  | Total_duration_minutes real
  | Average_duration_seconds real
  | Config_saved

text \<open>
  A library call that writes a file either succeeds or raises. When it raises, whether
  a (partial) file is left behind is up to the library, so the failure carries that bit.
\<close>

datatype write_result = Written | WriteFailed exn bool

text \<open>
  Everything outside the repository that a run depends on: the input directory and the
  behaviour of the library calls (librosa, soundfile, numpy, pathlib, json) and of the
  standard output on the arguments the program passes them. Writing a line to the
  standard output raises when the stream cannot take it, for instance
  \<^verbatim>\<open>UnicodeEncodeError\<close> on a file name that its encoding does not have.
\<close>

record env =
  input_dir_exists :: bool
  glob_mp3 :: "string list"
  librosa_load :: "string \<Rightarrow> exn + audio"
  sf_write :: "string \<Rightarrow> audio \<Rightarrow> write_result"
  melspectrogram :: "config \<Rightarrow> audio \<Rightarrow> exn + ndarray"
  np_save :: "string \<Rightarrow> ndarray \<Rightarrow> write_result"
  mkdir :: "string \<Rightarrow> exn option"
  json_dump :: "string \<Rightarrow> exn option"
  stdout_write :: "event \<Rightarrow> exn option"

text \<open>
  The observable state: the file names present in \<^verbatim>\<open>audio/\<close> and \<^verbatim>\<open>mels/\<close>, the two
  JSON files, and what was printed.
\<close>

record world =
  audio_dir :: "string set"
  mel_dir :: "string set"
  metadata_json :: "manifest_record list option"
  config_json :: "config option"
  stdout :: "event list"

text \<open>
  \<^verbatim>\<open>print\<close>: the line is appended to what was printed, or the exception of the stream is
  raised and nothing is appended.
\<close>

definition print :: "env \<Rightarrow> event \<Rightarrow> world \<Rightarrow> world \<times> exn option" where
  "print env e w =
     (case stdout_write env e of
        Some x \<Rightarrow> (w, Some x)
      | None \<Rightarrow> (w\<lparr>stdout := stdout w @ [e]\<rparr>, None))"

text \<open>Consecutive \<^verbatim>\<open>print\<close> statements: the first one that raises ends the sequence.\<close>

fun print_lines :: "env \<Rightarrow> event list \<Rightarrow> world \<Rightarrow> world \<times> exn option" where
  "print_lines env [] w = (w, None)"
| "print_lines env (e # es) w =
     (case print env e w of
        (w', Some x) \<Rightarrow> (w', Some x)
      | (w', None) \<Rightarrow> print_lines env es w')"

section \<open>Formatting an index: \<^verbatim>\<open>f"{idx:04d}"\<close>\<close>

definition digit_char :: "nat \<Rightarrow> char" where
  "digit_char d = char_of (48 + d)"

function dec_digits :: "nat \<Rightarrow> string" where
  "dec_digits n =
     (if n < 10 then [digit_char n] else dec_digits (n div 10) @ [digit_char (n mod 10)])"
  by pat_completeness auto
termination
  by (relation "measure (\<lambda>n. n)") auto

declare dec_digits.simps [simp del]

definition fmt04 :: "nat \<Rightarrow> string" where
  "fmt04 idx = (let s = dec_digits idx in replicate (4 - length s) (CHR ''0'') @ s)"

text \<open>Reading the index back from a file name: the decimal number before the dot.\<close>

definition digit_val :: "char \<Rightarrow> nat" where
  "digit_val c = of_char c - 48"

definition parse_dec :: "string \<Rightarrow> nat" where
  "parse_dec s = foldl (\<lambda>a c. 10 * a + digit_val c) 0 s"

definition stem :: "string \<Rightarrow> string" where
  "stem name = takeWhile (\<lambda>c. c \<noteq> CHR ''.'') name"

definition recover_id :: "string \<Rightarrow> nat" where
  "recover_id name = parse_dec (stem name)"

section \<open>Python primitives used by the program\<close>

text \<open>True division raises \<^verbatim>\<open>ZeroDivisionError\<close> on a zero divisor.\<close>

definition truediv :: "real \<Rightarrow> real \<Rightarrow> exn + real" where
  "truediv x y = (if y = 0 then Inl ''division by zero'' else Inr (x / y))"

text \<open>Truthiness of \<^verbatim>\<open>max_files\<close>: \<^verbatim>\<open>None\<close> and \<^verbatim>\<open>0\<close> are false.\<close>

definition truthy :: "int option \<Rightarrow> bool" where
  "truthy m = (case m of None \<Rightarrow> False | Some n \<Rightarrow> n \<noteq> 0)"

text \<open>The slice \<^verbatim>\<open>xs[:n]\<close>; a negative bound counts from the end.\<close>

definition slice_to :: "int \<Rightarrow> 'a list \<Rightarrow> 'a list" where
  "slice_to n xs = (if 0 \<le> n then take (nat n) xs else take (length xs - nat (- n)) xs)"

section \<open>The decibel conversion\<close>

text \<open>
  Modelled from the spec: \<^verbatim>\<open>np.max\<close>, passed as \<^verbatim>\<open>ref\<close> on line 48, is library code that is
  not in the repository. Section 4.1 of the specification calls the reference "the
  maximum value observed across the whole spectrogram": the largest entry.
\<close>

definition np_max :: "ndarray \<Rightarrow> real" where
  "np_max a = Max (set (cells a))"

text \<open>
  Modelled from the spec: \<^verbatim>\<open>librosa.power_to_db\<close> (line 48) is library code that is not in
  the repository. Section 4.1 of the specification: "Convert all magnitudes to a
  logarithmic (decibel) scale referenced to the maximum value observed across the whole
  spectrogram (so the output is relative, not absolute, loudness)", with no error
  conditions. Each entry becomes ten times the decimal logarithm of its ratio to the
  reference, and the shape is kept. The real logarithm means something for positive
  ratios only, and the specification says nothing about entries of zero power; the
  properties below are stated for spectrograms whose entries are positive. The
  logarithm is not computed by evaluation.
\<close>

definition power_to_db :: "ndarray \<Rightarrow> (ndarray \<Rightarrow> real) \<Rightarrow> ndarray" where
  "power_to_db S ref = S\<lparr>cells := map (\<lambda>x. 10 * log 10 (x / ref S)) (cells S)\<rparr>"

declare power_to_db_def [code del]

text \<open>A power spectrogram with every entry multiplied by \<open>c\<close>.\<close>

definition scaled :: "real \<Rightarrow> ndarray \<Rightarrow> ndarray" where
  "scaled c S = S\<lparr>cells := map (\<lambda>x. c * x) (cells S)\<rparr>"

section \<open>The class \<^verbatim>\<open>AudioPreprocessor\<close>\<close>

definition load_audio :: "config \<Rightarrow> env \<Rightarrow> string \<Rightarrow> exn + audio" where
  "load_audio self env audio_path = librosa_load env audio_path"

definition extract_mel_spectrogram :: "config \<Rightarrow> env \<Rightarrow> audio \<Rightarrow> exn + ndarray" where
  "extract_mel_spectrogram self env audio =
     (case melspectrogram env self audio of
        Inl e \<Rightarrow> Inl e
      | Inr mel \<Rightarrow>
          let mel_db = power_to_db mel np_max in
          Inr mel_db)"

text \<open>
  The body of the \<^verbatim>\<open>try\<close> block (lines 74 to 97) for the file at position \<open>idx\<close>: the new
  state, and either the exception that left the block or the record to append.
\<close>

definition process_file ::
  "config \<Rightarrow> env \<Rightarrow> nat \<Rightarrow> string \<Rightarrow> world \<Rightarrow> world \<times> (exn + manifest_record)" where
  "process_file self env idx audio_path w =
     (case load_audio self env audio_path of
        Inl e \<Rightarrow> (w, Inl e)
      | Inr audio \<Rightarrow>
          let audio_filename = fmt04 idx @ ''.wav'' in
          (case sf_write env audio_filename audio of
             WriteFailed e left \<Rightarrow>
               (if left then w\<lparr>audio_dir := insert audio_filename (audio_dir w)\<rparr> else w, Inl e)
           | Written \<Rightarrow>
               let w1 = w\<lparr>audio_dir := insert audio_filename (audio_dir w)\<rparr> in
               (case extract_mel_spectrogram self env audio of
                  Inl e \<Rightarrow> (w1, Inl e)
                | Inr mel \<Rightarrow>
                    let mel_filename = fmt04 idx @ ''.npy'' in
                    (case np_save env mel_filename mel of
                       WriteFailed e left \<Rightarrow>
                         (if left then w1\<lparr>mel_dir := insert mel_filename (mel_dir w1)\<rparr> else w1,
                          Inl e)
                     | Written \<Rightarrow>
                         let w2 = w1\<lparr>mel_dir := insert mel_filename (mel_dir w1)\<rparr> in
                         (case truediv (real (length audio)) (real_of_int (sample_rate self)) of
                            Inl e \<Rightarrow> (w2, Inl e)
                          | Inr d \<Rightarrow>
                              (w2, Inr \<lparr>id_r = idx,
                                        original_file = audio_path,
                                        audio_file = audio_filename,
                                        mel_file = mel_filename,
                                        audio_length = length audio,
                                        duration = d,
                                        mel_shape = shape mel\<rparr>))))))"

text \<open>
  The \<^verbatim>\<open>for idx, audio_path in enumerate(...)\<close> loop (lines 72 to 101), from position
  \<open>idx\<close> on: a record is appended on success; on failure the handler prints the error
  with the file name and the loop goes on. The \<^verbatim>\<open>print\<close> of the handler is not guarded: an
  exception it raises leaves the loop, and the method.
\<close>

fun process_loop ::
  "config \<Rightarrow> env \<Rightarrow> nat \<Rightarrow> string list \<Rightarrow> world \<Rightarrow> manifest_record list
     \<Rightarrow> world \<times> (exn + manifest_record list)" where
  "process_loop self env idx [] w metadata = (w, Inr metadata)"
| "process_loop self env idx (audio_path # rest) w metadata =
     (case process_file self env idx audio_path w of
        (w', Inr r) \<Rightarrow> process_loop self env (Suc idx) rest w' (metadata @ [r])
      | (w', Inl e) \<Rightarrow>
          (case print env (Error_processing audio_path e) w' of
             (w'', Some x) \<Rightarrow> (w'', Inl x)
           | (w'', None) \<Rightarrow> process_loop self env (Suc idx) rest w'' metadata))"

text \<open>Lines 64 to 66: the discovered files, cut to \<^verbatim>\<open>max_files\<close> when that is truthy.\<close>

definition discover :: "env \<Rightarrow> int option \<Rightarrow> string list" where
  "discover env max_files =
     (let audio_files = glob_mp3 env in
      if truthy max_files then
        (case max_files of Some n \<Rightarrow> slice_to n audio_files | None \<Rightarrow> audio_files)
      else audio_files)"

text \<open>
  \<^verbatim>\<open>process_directory\<close>. The two \<^verbatim>\<open>mkdir\<close> calls, the writing of \<^verbatim>\<open>metadata.json\<close> and the
  \<^verbatim>\<open>print\<close> statements are outside the \<^verbatim>\<open>try\<close> block: an exception there leaves the
  method (\<open>Inl\<close>).
\<close>

definition process_directory ::
  "config \<Rightarrow> env \<Rightarrow> int option \<Rightarrow> world \<Rightarrow> world \<times> (exn + manifest_record list)" where
  "process_directory self env max_files w =
     (case mkdir env ''audio'' of
        Some e \<Rightarrow> (w, Inl e)
      | None \<Rightarrow>
     (case mkdir env ''mels'' of
        Some e \<Rightarrow> (w, Inl e)
      | None \<Rightarrow>
          let audio_files = discover env max_files in
          (case print env (Processing_files (length audio_files)) w of
             (w1, Some x) \<Rightarrow> (w1, Inl x)
           | (w1, None) \<Rightarrow>
          (case process_loop self env 0 audio_files w1 [] of
             (w2, Inl x) \<Rightarrow> (w2, Inl x)
           | (w2, Inr metadata) \<Rightarrow>
          (case json_dump env ''metadata.json'' of
             Some e \<Rightarrow> (w2, Inl e)
           | None \<Rightarrow>
               let w3 = w2\<lparr>metadata_json := Some metadata\<rparr> in
               (case print_lines env
                       [Processed (length metadata), Saved_to ''audio'', Saved_to ''mels'',
                        Saved_to ''metadata.json''] w3 of
                  (w4, Some x) \<Rightarrow> (w4, Inl x)
                | (w4, None) \<Rightarrow> (w4, Inr metadata)))))))"

section \<open>The entry point \<^verbatim>\<open>main\<close>\<close>

definition default_config :: config where
  "default_config =
     \<lparr>sample_rate = 22050, n_fft = 1024, hop_length = 256, win_length = 1024,
      n_mels = 80, fmin = 0, fmax = 8000, segment_size = 8192\<rparr>"

definition rule_line :: string where
  "rule_line = replicate 70 (CHR ''='')"

text \<open>Lines 141 to 147: the header and one line per configuration entry.\<close>

definition print_header :: "env \<Rightarrow> config \<Rightarrow> world \<Rightarrow> world \<times> exn option" where
  "print_header env cfg w =
     print_lines env
       [Banner rule_line, Banner ''AUDIO PREPROCESSING FOR HIFI-GAN'', Banner rule_line,
        Banner ''Configuration:'',
        Config_line ''sample_rate'' (sample_rate cfg),
        Config_line ''n_fft'' (n_fft cfg),
        Config_line ''hop_length'' (hop_length cfg),
        Config_line ''win_length'' (win_length cfg),
        Config_line ''n_mels'' (n_mels cfg),
        Config_line ''fmin'' (fmin cfg),
        Config_line ''fmax'' (fmax cfg),
        Config_line ''segment_size'' (segment_size cfg),
        Banner rule_line] w"

text \<open>
  Lines 154 to 162: the summary. The two figures are computed and printed only when
  \<^verbatim>\<open>metadata\<close> is truthy, that is non-empty. The total is printed in minutes. The rounding
  to two decimals of the format \<^verbatim>\<open>.2f\<close> is not modelled.
\<close>

definition print_summary :: "env \<Rightarrow> manifest_record list \<Rightarrow> world \<Rightarrow> world \<times> exn option" where
  "print_summary env metadata w =
     (case print_lines env
             [Banner rule_line, Banner ''PREPROCESSING COMPLETE'', Banner rule_line,
              Total_files (length metadata)] w of
        (w1, Some x) \<Rightarrow> (w1, Some x)
      | (w1, None) \<Rightarrow>
          if metadata \<noteq> [] then
            let total_duration = sum_list (map duration metadata) in
            (case print env (Total_duration_minutes (total_duration / 60)) w1 of
               (w2, Some x) \<Rightarrow> (w2, Some x)
             | (w2, None) \<Rightarrow>
                 (case truediv total_duration (real (length metadata)) of
                    Inl e \<Rightarrow> (w2, Some e)
                  | Inr avg_duration \<Rightarrow> print env (Average_duration_seconds avg_duration) w2))
          else (w1, None))"

text \<open>
  \<^verbatim>\<open>main\<close>: \<open>Inr ()\<close> when it returns, \<open>Inl e\<close> when an exception leaves it.
\<close>

definition main :: "env \<Rightarrow> world \<Rightarrow> world \<times> (exn + unit)" where
  "main env w =
     (let config = default_config in
      if \<not> input_dir_exists env then
        (case print env Input_dir_not_found w of
           (w', Some x) \<Rightarrow> (w', Inl x)
         | (w', None) \<Rightarrow> (w', Inr ()))
      else
        (case print_header env config w of
           (w1, Some x) \<Rightarrow> (w1, Inl x)
         | (w1, None) \<Rightarrow>
        (case process_directory config env None w1 of
           (w2, Inl e) \<Rightarrow> (w2, Inl e)
         | (w2, Inr metadata) \<Rightarrow>
        (case print_summary env metadata w2 of
           (w3, Some x) \<Rightarrow> (w3, Inl x)
         | (w3, None) \<Rightarrow>
        (case json_dump env ''config.json'' of
           Some e \<Rightarrow> (w3, Inl e)
         | None \<Rightarrow>
             (case print env Config_saved (w3\<lparr>config_json := Some config\<rparr>) of
                (w4, Some x) \<Rightarrow> (w4, Inl x)
              | (w4, None) \<Rightarrow> (w4, Inr ())))))))"

text \<open>
  The script calls \<^verbatim>\<open>main()\<close> under \<^verbatim>\<open>if __name__ == "__main__"\<close> and nothing else: the
  interpreter exits with status 0 when \<^verbatim>\<open>main\<close> returns and with status 1 when an
  exception leaves it.
\<close>

definition exit_status :: "exn + unit \<Rightarrow> nat" where
  "exit_status r = (case r of Inr _ \<Rightarrow> 0 | Inl _ \<Rightarrow> 1)"

definition run_script :: "env \<Rightarrow> world \<Rightarrow> world \<times> nat" where
  "run_script env w = (let (w', r) = main env w in (w', exit_status r))"

section \<open>Vocabulary of the properties\<close>

text \<open>An output tree with nothing in it and nothing printed yet.\<close>

definition world0 :: world where
  "world0 = \<lparr>audio_dir = {}, mel_dir = {}, metadata_json = None, config_json = None, stdout = []\<rparr>"

text \<open>
  What the \<^verbatim>\<open>try\<close> block does for the file at position \<open>idx\<close>: the exception that leaves
  it or the record it appends. A file is successfully processed when the block completes.
\<close>

definition file_result :: "config \<Rightarrow> env \<Rightarrow> nat \<Rightarrow> string \<Rightarrow> exn + manifest_record" where
  "file_result self env idx audio_path = snd (process_file self env idx audio_path world0)"

definition succeeds :: "config \<Rightarrow> env \<Rightarrow> nat \<Rightarrow> string \<Rightarrow> bool" where
  "succeeds self env idx audio_path =
     (case file_result self env idx audio_path of Inr _ \<Rightarrow> True | Inl _ \<Rightarrow> False)"

text \<open>The records and the error lines of the files of a list, from position \<open>idx\<close> on.\<close>

fun results_from :: "config \<Rightarrow> env \<Rightarrow> nat \<Rightarrow> string list \<Rightarrow> manifest_record list" where
  "results_from self env idx [] = []"
| "results_from self env idx (p # ps) =
     (case file_result self env idx p of Inr r \<Rightarrow> [r] | Inl _ \<Rightarrow> []) @
     results_from self env (Suc idx) ps"

fun errors_from :: "config \<Rightarrow> env \<Rightarrow> nat \<Rightarrow> string list \<Rightarrow> event list" where
  "errors_from self env idx [] = []"
| "errors_from self env idx (p # ps) =
     (case file_result self env idx p of Inr _ \<Rightarrow> [] | Inl e \<Rightarrow> [Error_processing p e]) @
     errors_from self env (Suc idx) ps"

text \<open>The figures that the summary of \<^verbatim>\<open>main\<close> prints after the file count.\<close>

definition summary_figures :: "manifest_record list \<Rightarrow> event list" where
  "summary_figures md =
     (if md = [] then []
      else [Total_duration_minutes (sum_list (map duration md) / 60),
            Average_duration_seconds (sum_list (map duration md) / real (length md))])"

text \<open>
  The calls outside the \<^verbatim>\<open>try\<close> block succeed: both output directories can be created and
  \<^verbatim>\<open>metadata.json\<close> can be written.
\<close>

definition outputs_writable :: "env \<Rightarrow> bool" where
  "outputs_writable env \<longleftrightarrow>
     mkdir env ''audio'' = None \<and> mkdir env ''mels'' = None \<and>
     json_dump env ''metadata.json'' = None"

text \<open>The state in which the loop starts: the opening line has been printed.\<close>

definition loop_start :: "env \<Rightarrow> int option \<Rightarrow> world \<Rightarrow> world" where
  "loop_start env max_files w =
     fst (print env (Processing_files (length (discover env max_files))) w)"

text \<open>The standard output takes every line.\<close>

definition stdout_ok :: "env \<Rightarrow> bool" where
  "stdout_ok env \<longleftrightarrow> (\<forall>e. stdout_write env e = None)"

section \<open>Concrete runs\<close>

definition sample_mel :: ndarray where
  "sample_mel = \<lparr>shape = (80, 1), cells = 1 / 100 # replicate 79 1\<rparr>"

definition env_base :: env where
  "env_base =
     \<lparr>input_dir_exists = True,
      glob_mp3 = [''a.mp3'', ''b.mp3'', ''c.mp3''],
      librosa_load = (\<lambda>p. Inr [0, 1 / 2]),
      sf_write = (\<lambda>name a. Written),
      melspectrogram = (\<lambda>c a. Inr sample_mel),
      np_save = (\<lambda>name m. Written),
      mkdir = (\<lambda>d. None),
      json_dump = (\<lambda>p. None),
      stdout_write = (\<lambda>e. None)\<rparr>"

definition env_second_corrupt :: env where
  "env_second_corrupt =
     env_base\<lparr>librosa_load :=
       (\<lambda>p. if p = ''b.mp3'' then Inl ''cannot decode'' else Inr [0, 1 / 2])\<rparr>"

definition env_extract_fails :: env where
  "env_extract_fails =
     env_base\<lparr>glob_mp3 := [''a.mp3''], melspectrogram := (\<lambda>c a. Inl ''extraction failed'')\<rparr>"

definition env_missing :: env where
  "env_missing = env_base\<lparr>input_dir_exists := False, glob_mp3 := []\<rparr>"

text \<open>
  The second file cannot be decoded and the standard output cannot take the line that
  reports it.
\<close>

definition env_error_line_rejected :: env where
  "env_error_line_rejected =
     env_second_corrupt\<lparr>stdout_write :=
       (\<lambda>e. case e of Error_processing name msg \<Rightarrow> Some ''UnicodeEncodeError'' | _ \<Rightarrow> None)\<rparr>"

text \<open>Runs of the method on the default configuration, into an empty output tree.\<close>

definition run_second_corrupt :: "world \<times> (exn + manifest_record list)" where
  "run_second_corrupt = process_directory default_config env_second_corrupt None world0"

definition run_all_fail :: "world \<times> (exn + manifest_record list)" where
  "run_all_fail = process_directory default_config env_extract_fails None world0"

definition run_error_line_rejected :: "world \<times> (exn + manifest_record list)" where
  "run_error_line_rejected =
     process_directory default_config env_error_line_rejected None world0"

text \<open>Two runs of the whole script.\<close>

definition main_second_corrupt :: "world \<times> (exn + unit)" where
  "main_second_corrupt = main env_second_corrupt world0"

definition main_all_fail :: "world \<times> (exn + unit)" where
  "main_all_fail = main env_extract_fails world0"

section \<open>The per-file step\<close>

lemma process_file_result:
  "snd (process_file self env idx p w) = file_result self env idx p"
  by (simp add: file_result_def process_file_def Let_def
      split: sum.splits write_result.splits)

lemma process_file_stdout:
  "stdout (fst (process_file self env idx p w)) = stdout w"
  by (simp add: process_file_def Let_def split: sum.splits write_result.splits)

lemma process_file_json:
  "metadata_json (fst (process_file self env idx p w)) = metadata_json w"
  "config_json (fst (process_file self env idx p w)) = config_json w"
  by (simp_all add: process_file_def Let_def split: sum.splits write_result.splits)

lemma process_file_audio_mono:
  "audio_dir w \<subseteq> audio_dir (fst (process_file self env idx p w))"
  by (auto simp add: process_file_def Let_def split: sum.splits write_result.splits)

lemma process_file_mel_mono:
  "mel_dir w \<subseteq> mel_dir (fst (process_file self env idx p w))"
  by (auto simp add: process_file_def Let_def split: sum.splits write_result.splits)

lemma process_file_new_mel:
  "x \<in> mel_dir (fst (process_file self env idx p w)) \<Longrightarrow> x \<notin> mel_dir w \<Longrightarrow>
   x = fmt04 idx @ ''.npy'' \<and> fmt04 idx @ ''.wav'' \<in> audio_dir (fst (process_file self env idx p w))"
  by (auto simp add: process_file_def Let_def split: sum.splits write_result.splits if_splits)

lemma process_file_success_files:
  "file_result self env idx p = Inr r \<Longrightarrow>
   audio_file r \<in> audio_dir (fst (process_file self env idx p w)) \<and>
   mel_file r \<in> mel_dir (fst (process_file self env idx p w))"
  by (auto simp add: file_result_def process_file_def Let_def split: sum.splits write_result.splits if_splits)

lemma file_result_fields:
  "file_result self env idx p = Inr r \<Longrightarrow>
   id_r r = idx \<and> original_file r = p \<and> audio_file r = fmt04 idx @ ''.wav'' \<and>
   mel_file r = fmt04 idx @ ''.npy''"
  by (auto simp add: file_result_def process_file_def Let_def split: sum.splits write_result.splits if_splits)

lemma process_file_written_wav:
  "load_audio self env p = Inr audio \<Longrightarrow> sf_write env (fmt04 idx @ ''.wav'') audio = Written \<Longrightarrow>
   fmt04 idx @ ''.wav'' \<in> audio_dir (fst (process_file self env idx p w))"
  by (auto simp add: process_file_def Let_def split: sum.splits write_result.splits)

section \<open>Printing\<close>

lemma print_keeps:
  "audio_dir (fst (print env e w)) = audio_dir w"
  "mel_dir (fst (print env e w)) = mel_dir w"
  "metadata_json (fst (print env e w)) = metadata_json w"
  "config_json (fst (print env e w)) = config_json w"
  by (simp_all add: print_def split: option.splits)

lemma print_raises: "print env e w = (w', Some x) \<Longrightarrow> w' = w"
  by (auto simp add: print_def split: option.splits)

lemma print_lines_keeps:
  "audio_dir (fst (print_lines env es w)) = audio_dir w \<and>
   mel_dir (fst (print_lines env es w)) = mel_dir w \<and>
   metadata_json (fst (print_lines env es w)) = metadata_json w \<and>
   config_json (fst (print_lines env es w)) = config_json w"
proof (induction es arbitrary: w)
  case Nil
  show ?case by simp
next
  case (Cons e es)
  obtain w' r where p: "print env e w = (w', r)"
    by (cases "print env e w")
  have k: "audio_dir w' = audio_dir w" "mel_dir w' = mel_dir w"
    "metadata_json w' = metadata_json w" "config_json w' = config_json w"
    using print_keeps [of env e w] p by simp_all
  show ?case
    using Cons.IH [of w'] p k by (cases r) simp_all
qed

lemma print_ok:
  "stdout_ok env \<Longrightarrow> print env e w = (w\<lparr>stdout := stdout w @ [e]\<rparr>, None)"
  by (simp add: print_def stdout_ok_def)

lemma print_lines_ok:
  "stdout_ok env \<Longrightarrow> print_lines env es w = (w\<lparr>stdout := stdout w @ es\<rparr>, None)"
  by (induction es arbitrary: w) (simp_all add: print_ok)

section \<open>The loop\<close>

lemma process_loop_Cons:
  "(\<exists>w1 md1.
      process_loop self env idx (p # ps) w md = process_loop self env (Suc idx) ps w1 md1 \<and>
      audio_dir w1 = audio_dir (fst (process_file self env idx p w)) \<and>
      mel_dir w1 = mel_dir (fst (process_file self env idx p w)) \<and>
      md1 = md @ (case file_result self env idx p of Inr r \<Rightarrow> [r] | Inl e \<Rightarrow> [])) \<or>
   (\<exists>x. process_loop self env idx (p # ps) w md = (fst (process_file self env idx p w), Inl x))"
proof -
  obtain w' res where pf: "process_file self env idx p w = (w', res)"
    by (cases "process_file self env idx p w")
  then have res: "file_result self env idx p = res"
    using process_file_result [of self env idx p w] by simp
  show ?thesis
  proof (cases res)
    case (Inr r)
    have "process_loop self env idx (p # ps) w md = process_loop self env (Suc idx) ps w' (md @ [r])"
      using pf Inr by simp
    then show ?thesis
      using pf res Inr by (intro disjI1 exI [of _ w'] exI [of _ "md @ [r]"]) simp
  next
    case (Inl e)
    obtain w'' r where pr: "print env (Error_processing p e) w' = (w'', r)"
      by (cases "print env (Error_processing p e) w'")
    have k: "audio_dir w'' = audio_dir w'" "mel_dir w'' = mel_dir w'"
      using print_keeps [of env "Error_processing p e" w'] pr by simp_all
    show ?thesis
    proof (cases r)
      case None
      have "process_loop self env idx (p # ps) w md = process_loop self env (Suc idx) ps w'' md"
        using pf Inl pr None by simp
      then show ?thesis
        using pf res Inl k by (intro disjI1 exI [of _ w''] exI [of _ md]) simp
    next
      case (Some x)
      then have "w'' = w'" using pr print_raises by blast
      then have "process_loop self env idx (p # ps) w md = (w', Inl x)"
        using pf Inl pr Some by simp
      then show ?thesis
        using pf by (intro disjI2 exI [of _ x]) simp
    qed
  qed
qed

lemma process_loop_dirs_mono:
  "audio_dir w \<subseteq> audio_dir (fst (process_loop self env idx ps w md)) \<and>
   mel_dir w \<subseteq> mel_dir (fst (process_loop self env idx ps w md))"
proof (induction ps arbitrary: idx w md)
  case Nil
  show ?case by simp
next
  case (Cons p ps)
  have m: "audio_dir w \<subseteq> audio_dir (fst (process_file self env idx p w))"
    "mel_dir w \<subseteq> mel_dir (fst (process_file self env idx p w))"
    by (rule process_file_audio_mono, rule process_file_mel_mono)
  from process_loop_Cons [of self env idx p ps w md]
  show ?case
  proof (elim disjE exE conjE)
    fix w1 md1
    assume step: "process_loop self env idx (p # ps) w md = process_loop self env (Suc idx) ps w1 md1"
      and d: "audio_dir w1 = audio_dir (fst (process_file self env idx p w))"
        "mel_dir w1 = mel_dir (fst (process_file self env idx p w))"
    show ?thesis
      unfolding step using Cons.IH [where idx = "Suc idx" and w = w1 and md = md1] m d by auto
  next
    fix x
    assume "process_loop self env idx (p # ps) w md = (fst (process_file self env idx p w), Inl x)"
    then show ?thesis using m by simp
  qed
qed

lemma process_loop_new_mel:
  "x \<in> mel_dir (fst (process_loop self env idx ps w md)) \<Longrightarrow> x \<notin> mel_dir w \<Longrightarrow>
   \<exists>s. x = s @ ''.npy'' \<and> s @ ''.wav'' \<in> audio_dir (fst (process_loop self env idx ps w md))"
proof (induction ps arbitrary: idx w md)
  case Nil
  then show ?case by simp
next
  case (Cons p ps)
  let ?w' = "fst (process_file self env idx p w)"
  have here: "x = fmt04 idx @ ''.npy'' \<and> fmt04 idx @ ''.wav'' \<in> audio_dir ?w'" if "x \<in> mel_dir ?w'"
    using process_file_new_mel [of x self env idx p w] that Cons.prems(2) by simp
  from process_loop_Cons [of self env idx p ps w md]
  show ?case
  proof (elim disjE exE conjE)
    fix w1 md1
    assume step: "process_loop self env idx (p # ps) w md = process_loop self env (Suc idx) ps w1 md1"
      and d: "audio_dir w1 = audio_dir ?w'" "mel_dir w1 = mel_dir ?w'"
    have mono: "audio_dir w1 \<subseteq> audio_dir (fst (process_loop self env (Suc idx) ps w1 md1))"
      using process_loop_dirs_mono by blast
    show ?thesis
    proof (cases "x \<in> mel_dir ?w'")
      case True
      then show ?thesis unfolding step using here mono d by auto
    next
      case False
      then show ?thesis
        using Cons.IH [where idx = "Suc idx" and w = w1 and md = md1] Cons.prems(1) d
        unfolding step by simp
    qed
  next
    fix y
    assume stop: "process_loop self env idx (p # ps) w md = (?w', Inl y)"
    then have "x \<in> mel_dir ?w'" using Cons.prems(1) by simp
    then show ?thesis using here stop by auto
  qed
qed

lemma process_loop_returns:
  "snd (process_loop self env idx ps w md) = Inr md' \<Longrightarrow>
   md' = md @ results_from self env idx ps"
proof (induction ps arbitrary: idx w md)
  case Nil
  then show ?case by simp
next
  case (Cons p ps)
  from process_loop_Cons [of self env idx p ps w md]
  show ?case
  proof (elim disjE exE conjE)
    fix w1 md1
    assume step: "process_loop self env idx (p # ps) w md = process_loop self env (Suc idx) ps w1 md1"
      and md1: "md1 = md @ (case file_result self env idx p of Inr r \<Rightarrow> [r] | Inl e \<Rightarrow> [])"
    have "md' = md1 @ results_from self env (Suc idx) ps"
      using Cons.IH [where idx = "Suc idx" and w = w1 and md = md1] Cons.prems
      unfolding step by simp
    then show ?thesis using md1 by simp
  next
    fix x
    assume "process_loop self env idx (p # ps) w md = (fst (process_file self env idx p w), Inl x)"
    then show ?thesis using Cons.prems by simp
  qed
qed

lemma process_loop_success_files:
  "snd (process_loop self env idx ps w md) = Inr md' \<Longrightarrow>
   r \<in> set (results_from self env idx ps) \<Longrightarrow>
   audio_file r \<in> audio_dir (fst (process_loop self env idx ps w md)) \<and>
   mel_file r \<in> mel_dir (fst (process_loop self env idx ps w md))"
proof (induction ps arbitrary: idx w md)
  case Nil
  then show ?case by simp
next
  case (Cons p ps)
  let ?w' = "fst (process_file self env idx p w)"
  from process_loop_Cons [of self env idx p ps w md]
  show ?case
  proof (elim disjE exE conjE)
    fix w1 md1
    assume step: "process_loop self env idx (p # ps) w md = process_loop self env (Suc idx) ps w1 md1"
      and d: "audio_dir w1 = audio_dir ?w'" "mel_dir w1 = mel_dir ?w'"
    have mono: "audio_dir w1 \<subseteq> audio_dir (fst (process_loop self env (Suc idx) ps w1 md1))"
      "mel_dir w1 \<subseteq> mel_dir (fst (process_loop self env (Suc idx) ps w1 md1))"
      using process_loop_dirs_mono by blast+
    show ?thesis
    proof (cases "r \<in> set (results_from self env (Suc idx) ps)")
      case True
      then show ?thesis
        using Cons.IH [where idx = "Suc idx" and w = w1 and md = md1] Cons.prems(1)
        unfolding step by simp
    next
      case False
      then have "file_result self env idx p = Inr r"
        using Cons.prems(2) by (cases "file_result self env idx p") simp_all
      then have "audio_file r \<in> audio_dir ?w' \<and> mel_file r \<in> mel_dir ?w'"
        by (rule process_file_success_files)
      then show ?thesis using mono d unfolding step by auto
    qed
  next
    fix x
    assume "process_loop self env idx (p # ps) w md = (?w', Inl x)"
    then show ?thesis using Cons.prems(1) by simp
  qed
qed

lemma process_loop_written_wav:
  "snd (process_loop self env idx ps w md) = Inr md' \<Longrightarrow>
   (i, p) \<in> set (List.enumerate idx ps) \<Longrightarrow>
   load_audio self env p = Inr audio \<Longrightarrow> sf_write env (fmt04 i @ ''.wav'') audio = Written \<Longrightarrow>
   fmt04 i @ ''.wav'' \<in> audio_dir (fst (process_loop self env idx ps w md))"
proof (induction ps arbitrary: idx w md)
  case Nil
  then show ?case by simp
next
  case (Cons q ps)
  let ?w' = "fst (process_file self env idx q w)"
  from process_loop_Cons [of self env idx q ps w md]
  show ?case
  proof (elim disjE exE conjE)
    fix w1 md1
    assume step: "process_loop self env idx (q # ps) w md = process_loop self env (Suc idx) ps w1 md1"
      and d: "audio_dir w1 = audio_dir ?w'"
    have mono: "audio_dir w1 \<subseteq> audio_dir (fst (process_loop self env (Suc idx) ps w1 md1))"
      using process_loop_dirs_mono by blast
    show ?thesis
    proof (cases "(i, p) = (idx, q)")
      case True
      then have "fmt04 i @ ''.wav'' \<in> audio_dir ?w'"
        using process_file_written_wav [of self env q audio idx w] Cons.prems(3,4) by simp
      then show ?thesis using mono d unfolding step by auto
    next
      case False
      then have "(i, p) \<in> set (List.enumerate (Suc idx) ps)"
        using Cons.prems(2) by auto
      then show ?thesis
        using Cons.IH [where idx = "Suc idx" and w = w1 and md = md1] Cons.prems(1,3,4)
        unfolding step by simp
    qed
  next
    fix x
    assume "process_loop self env idx (q # ps) w md = (?w', Inl x)"
    then show ?thesis using Cons.prems(1) by simp
  qed
qed

lemma process_loop_ok:
  assumes "stdout_ok env"
  shows "snd (process_loop self env idx ps w md) = Inr (md @ results_from self env idx ps) \<and>
    stdout (fst (process_loop self env idx ps w md)) = stdout w @ errors_from self env idx ps \<and>
    metadata_json (fst (process_loop self env idx ps w md)) = metadata_json w"
proof (induction ps arbitrary: idx w md)
  case Nil
  show ?case by simp
next
  case (Cons p ps)
  obtain w' res where pf: "process_file self env idx p w = (w', res)"
    by (cases "process_file self env idx p w")
  then have res: "file_result self env idx p = res"
    using process_file_result [of self env idx p w] by simp
  have k: "stdout w' = stdout w" "metadata_json w' = metadata_json w"
    using pf process_file_stdout [of self env idx p w] process_file_json(1) [of self env idx p w]
    by simp_all
  show ?case
  proof (cases res)
    case (Inr r)
    then show ?thesis
      using pf res k Cons.IH [where idx = "Suc idx" and w = w' and md = "md @ [r]"] by simp
  next
    case (Inl e)
    let ?w'' = "w'\<lparr>stdout := stdout w' @ [Error_processing p e]\<rparr>"
    have "process_loop self env idx (p # ps) w md = process_loop self env (Suc idx) ps ?w'' md"
      using pf Inl by (simp add: print_ok [OF assms])
    then show ?thesis
      using res Inl k Cons.IH [where idx = "Suc idx" and w = ?w'' and md = md] by simp
  qed
qed

section \<open>The method \<^verbatim>\<open>process_directory\<close>\<close>

lemma loop_start_keeps:
  "audio_dir (loop_start env max_files w) = audio_dir w"
  "mel_dir (loop_start env max_files w) = mel_dir w"
  by (simp_all add: loop_start_def print_keeps)

lemma process_directory_cases:
  "(audio_dir (fst (process_directory self env max_files w)) = audio_dir w \<and>
    mel_dir (fst (process_directory self env max_files w)) = mel_dir w \<and>
    isl (snd (process_directory self env max_files w))) \<or>
   (audio_dir (fst (process_directory self env max_files w)) =
      audio_dir (fst (process_loop self env 0 (discover env max_files)
         (loop_start env max_files w) [])) \<and>
    mel_dir (fst (process_directory self env max_files w)) =
      mel_dir (fst (process_loop self env 0 (discover env max_files)
         (loop_start env max_files w) [])) \<and>
    (\<forall>md. snd (process_directory self env max_files w) = Inr md \<longrightarrow>
       snd (process_loop self env 0 (discover env max_files) (loop_start env max_files w) [])
         = Inr md \<and>
       outputs_writable env \<and>
       metadata_json (fst (process_directory self env max_files w)) = Some md))"
proof -
  let ?files = "discover env max_files"
  obtain w1 r1 where p1: "print env (Processing_files (length ?files)) w = (w1, r1)"
    by (cases "print env (Processing_files (length ?files)) w")
  have w1: "loop_start env max_files w = w1"
    using p1 by (simp add: loop_start_def)
  have k1: "audio_dir w1 = audio_dir w" "mel_dir w1 = mel_dir w"
    using loop_start_keeps [of env max_files w] w1 by simp_all
  obtain w2 r2 where L: "process_loop self env 0 ?files w1 [] = (w2, r2)"
    by (cases "process_loop self env 0 ?files w1 []")
  let ?w3 = "w2\<lparr>metadata_json := Some (projr r2)\<rparr>"
  let ?lines = "[Processed (length (projr r2)), Saved_to ''audio'', Saved_to ''mels'',
                 Saved_to ''metadata.json'']"
  obtain w4 r4 where p4: "print_lines env ?lines ?w3 = (w4, r4)"
    by (cases "print_lines env ?lines ?w3")
  have k4: "audio_dir w4 = audio_dir w2" "mel_dir w4 = mel_dir w2"
    "metadata_json w4 = Some (projr r2)"
    using print_lines_keeps [of env ?lines ?w3] p4 by simp_all
  show ?thesis
  proof (cases "mkdir env ''audio''")
    case (Some e)
    then show ?thesis by (simp add: process_directory_def)
  next
    case a: None
    show ?thesis
    proof (cases "mkdir env ''mels''")
      case (Some e)
      then show ?thesis using a by (simp add: process_directory_def)
    next
      case m: None
      show ?thesis
      proof (cases r1)
        case (Some x)
        then show ?thesis using a m p1 k1 by (simp add: process_directory_def)
      next
        case p: None
        show ?thesis
        proof (cases r2)
          case (Inl x)
          then show ?thesis using a m p p1 L w1 by (simp add: process_directory_def)
        next
          case (Inr md)
          show ?thesis
          proof (cases "json_dump env ''metadata.json''")
            case (Some e)
            then show ?thesis using a m p p1 L w1 Inr by (simp add: process_directory_def)
          next
            case j: None
            have ow: "outputs_writable env"
              using a m j by (simp add: outputs_writable_def)
            show ?thesis
            proof (cases r4)
              case None
              then show ?thesis
                using a m p p1 L w1 Inr j p4 k4 ow by (simp add: process_directory_def)
            next
              case (Some x)
              then show ?thesis
                using a m p p1 L w1 Inr j p4 k4 ow by (simp add: process_directory_def)
            qed
          qed
        qed
      qed
    qed
  qed
qed

lemma process_directory_Inr:
  assumes "process_directory self env max_files w = (w', Inr md)"
  shows "md = results_from self env 0 (discover env max_files) \<and> outputs_writable env \<and>
         metadata_json w' = Some md"
proof -
  have "\<not> isl (snd (process_directory self env max_files w))"
    and s: "snd (process_directory self env max_files w) = Inr md"
    and f: "fst (process_directory self env max_files w) = w'"
    using assms by simp_all
  then have "snd (process_loop self env 0 (discover env max_files) (loop_start env max_files w) [])
         = Inr md \<and> outputs_writable env \<and> metadata_json w' = Some md"
    using process_directory_cases [of self env max_files w] by auto
  then show ?thesis
    using process_loop_returns [of self env 0 "discover env max_files"
        "loop_start env max_files w" "[]" md] by simp
qed

lemma process_directory_ok:
  assumes "outputs_writable env" and "stdout_ok env"
  shows "snd (process_directory self env max_files w) =
           Inr (results_from self env 0 (discover env max_files)) \<and>
         metadata_json (fst (process_directory self env max_files w)) =
           Some (results_from self env 0 (discover env max_files)) \<and>
         stdout (fst (process_directory self env max_files w)) =
           stdout w @ [Processing_files (length (discover env max_files))] @
           errors_from self env 0 (discover env max_files) @
           [Processed (length (results_from self env 0 (discover env max_files))),
            Saved_to ''audio'', Saved_to ''mels'', Saved_to ''metadata.json'']"
proof -
  let ?files = "discover env max_files"
  let ?w1 = "w\<lparr>stdout := stdout w @ [Processing_files (length ?files)]\<rparr>"
  obtain w2 r2 where L: "process_loop self env 0 ?files ?w1 [] = (w2, r2)"
    by (cases "process_loop self env 0 ?files ?w1 []")
  have r2: "r2 = Inr (results_from self env 0 ?files)"
    and out2: "stdout w2 = stdout ?w1 @ errors_from self env 0 ?files"
    using process_loop_ok [OF assms(2), of self 0 ?files ?w1 "[]"] L by simp_all
  show ?thesis
    using assms(1) L r2 out2
    by (simp add: process_directory_def outputs_writable_def Let_def print_ok [OF assms(2)]
        print_lines_ok [OF assms(2)])
qed

lemma results_from_enumerate:
  "map (\<lambda>r. (id_r r, original_file r, audio_file r, mel_file r)) (results_from self env idx ps) =
   map (\<lambda>(i, p). (i, p, fmt04 i @ ''.wav'', fmt04 i @ ''.npy''))
     (filter (\<lambda>(i, p). succeeds self env i p) (List.enumerate idx ps))"
proof (induction ps arbitrary: idx)
  case Nil
  show ?case by simp
next
  case (Cons p ps)
  show ?case
  proof (cases "file_result self env idx p")
    case (Inl e)
    then show ?thesis using Cons.IH [of "Suc idx"] by (simp add: succeeds_def)
  next
    case (Inr r)
    then show ?thesis
      using Cons.IH [of "Suc idx"] file_result_fields [OF Inr] by (simp add: succeeds_def)
  qed
qed

lemma length_results_from:
  "length (results_from self env idx ps) =
   length (filter (\<lambda>(i, p). succeeds self env i p) (List.enumerate idx ps))"
  using arg_cong [OF results_from_enumerate [of self env idx ps], of length] by simp

lemma errors_from_iff:
  "(\<exists>e. Error_processing p e \<in> set (errors_from self env idx ps)) \<longleftrightarrow>
   (\<exists>i. (i, p) \<in> set (List.enumerate idx ps) \<and> \<not> succeeds self env i p)"
proof (induction ps arbitrary: idx)
  case Nil
  show ?case by simp
next
  case (Cons q ps)
  show ?case
    using Cons.IH [of "Suc idx"]
    by (cases "file_result self env idx q") (auto simp add: succeeds_def)
qed

lemma errors_from_only_errors:
  "x \<in> set (errors_from self env idx ps) \<Longrightarrow> \<exists>p e. x = Error_processing p e"
  by (induction ps arbitrary: idx) (auto split: sum.splits)

lemma discover_cap:
  assumes "0 < N"
  shows "discover env (Some (int N)) = take N (glob_mp3 env)"
  using assms by (simp add: discover_def truthy_def slice_to_def)

lemma results_from_filter:
  "map Inr (results_from self env idx ps) =
   filter (\<lambda>x. \<not> isl x) (map (\<lambda>(i, p). file_result self env i p) (List.enumerate idx ps))"
proof (induction ps arbitrary: idx)
  case Nil
  show ?case by simp
next
  case (Cons p ps)
  show ?case
    using Cons.IH [of "Suc idx"] by (cases "file_result self env idx p") simp_all
qed

lemma errors_from_member:
  "(i, p) \<in> set (List.enumerate idx ps) \<Longrightarrow> file_result self env i p = Inl e \<Longrightarrow>
   Error_processing p e \<in> set (errors_from self env idx ps)"
proof (induction ps arbitrary: idx)
  case Nil
  then show ?case by simp
next
  case (Cons q ps)
  show ?case
  proof (cases "(i, p) = (idx, q)")
    case True
    then show ?thesis using Cons.prems(2) by simp
  next
    case False
    then have "(i, p) \<in> set (List.enumerate (Suc idx) ps)"
      using Cons.prems(1) by auto
    then show ?thesis using Cons.IH [of "Suc idx"] Cons.prems(2) by simp
  qed
qed

lemma results_from_all_fail:
  assumes "\<forall>(i, p) \<in> set (List.enumerate idx ps). isl (file_result self env i p)"
  shows "results_from self env idx ps = []"
proof -
  have "filter (\<lambda>x. \<not> isl x) (map (\<lambda>(i, p). file_result self env i p) (List.enumerate idx ps)) = []"
    using assms by (auto simp add: filter_empty_conv)
  then show ?thesis using results_from_filter [of self env idx ps] by simp
qed

section \<open>Index formatting\<close>

lemma digit_val_digit_char: "d < 10 \<Longrightarrow> digit_val (digit_char d) = d"
  by (simp add: digit_val_def digit_char_def)

lemma of_char_digit_char: "d < 10 \<Longrightarrow> (of_char (digit_char d) :: nat) = 48 + d"
  by (simp add: digit_char_def)

lemma digit_char_not_dot: "d < 10 \<Longrightarrow> digit_char d \<noteq> CHR ''.''"
proof
  assume d: "d < 10" and eq: "digit_char d = CHR ''.''"
  have "(of_char (digit_char d) :: nat) = of_char (CHR ''.'')" using eq by simp
  then show False using of_char_digit_char [OF d] by simp
qed

lemma dec_digits_no_dot: "CHR ''.'' \<notin> set (dec_digits n)"
proof (induction n rule: dec_digits.induct)
  case (1 n)
  show ?case
  proof (cases "n < 10")
    case True
    then show ?thesis using digit_char_not_dot [of n] by (subst dec_digits.simps) auto
  next
    case False
    have "n mod 10 < 10" by simp
    then have "digit_char (n mod 10) \<noteq> CHR ''.''" by (rule digit_char_not_dot)
    then show ?thesis using False "1.IH" by (subst dec_digits.simps) auto
  qed
qed

lemma fmt04_no_dot: "CHR ''.'' \<notin> set (fmt04 n)"
  using dec_digits_no_dot [of n] by (auto simp add: fmt04_def Let_def)

lemma parse_dec_snoc: "parse_dec (s @ [c]) = 10 * parse_dec s + digit_val c"
  by (simp add: parse_dec_def)

lemma parse_dec_dec_digits: "parse_dec (dec_digits n) = n"
proof (induction n rule: dec_digits.induct)
  case (1 n)
  show ?case
  proof (cases "n < 10")
    case True
    then show ?thesis
      by (subst dec_digits.simps) (simp add: parse_dec_def digit_val_digit_char)
  next
    case False
    have "parse_dec (dec_digits n) = 10 * parse_dec (dec_digits (n div 10)) + digit_val (digit_char (n mod 10))"
      using False by (subst dec_digits.simps) (simp add: parse_dec_snoc)
    also have "\<dots> = 10 * (n div 10) + n mod 10"
      using "1.IH" False by (simp add: digit_val_digit_char)
    finally show ?thesis by simp
  qed
qed

lemma parse_dec_zeros: "parse_dec (replicate k (CHR ''0'') @ s) = parse_dec s"
proof (induction k)
  case 0
  show ?case by simp
next
  case (Suc k)
  have "digit_val (CHR ''0'') = 0" by (simp add: digit_val_def)
  then show ?case using Suc by (simp add: parse_dec_def)
qed

lemma parse_dec_fmt04: "parse_dec (fmt04 n) = n"
  by (simp add: fmt04_def Let_def parse_dec_zeros parse_dec_dec_digits)

lemma takeWhile_until: "x \<notin> set xs \<Longrightarrow> takeWhile (\<lambda>c. c \<noteq> x) (xs @ x # ys) = xs"
  by (induction xs) auto

lemma stem_fmt04: "stem (fmt04 n @ CHR ''.'' # ext) = fmt04 n"
  unfolding stem_def by (rule takeWhile_until) (rule fmt04_no_dot)

lemma recover_id_fmt04: "recover_id (fmt04 n @ CHR ''.'' # ext) = n"
  by (simp add: recover_id_def stem_fmt04 parse_dec_fmt04)

lemma results_from_names:
  assumes "r \<in> set (results_from self env idx ps)"
  shows "audio_file r = fmt04 (id_r r) @ ''.wav'' \<and> mel_file r = fmt04 (id_r r) @ ''.npy''"
proof -
  have "(id_r r, original_file r, audio_file r, mel_file r) \<in>
      set (map (\<lambda>r. (id_r r, original_file r, audio_file r, mel_file r))
            (results_from self env idx ps))"
    using assms by (simp add: image_iff) blast
  then show ?thesis unfolding results_from_enumerate by auto
qed

section \<open>The summary of \<^verbatim>\<open>main\<close>\<close>

lemma print_summary_returns:
  assumes "stdout_ok env"
  shows "\<exists>w'. print_summary env md w = (w', None) \<and>
     stdout w' = stdout w @ [Banner rule_line, Banner ''PREPROCESSING COMPLETE'', Banner rule_line,
        Total_files (length md)] @ summary_figures md \<and>
     metadata_json w' = metadata_json w"
  by (simp add: print_summary_def summary_figures_def truediv_def Let_def
      print_ok [OF assms] print_lines_ok [OF assms])

lemma print_header_returns:
  assumes "stdout_ok env"
  shows "\<exists>w'. print_header env cfg w = (w', None)"
  unfolding print_header_def print_lines_ok [OF assms] by simp

section \<open>Properties of the decibel conversion\<close>

lemma np_max_positive:
  assumes "cells S \<noteq> []" and "\<forall>x \<in> set (cells S). 0 < x"
  shows "0 < np_max S" and "np_max S \<in> set (cells S)" and "\<forall>x \<in> set (cells S). x \<le> np_max S"
proof -
  have fin: "finite (set (cells S))" and ne: "set (cells S) \<noteq> {}"
    using assms(1) by simp_all
  show "np_max S \<in> set (cells S)"
    unfolding np_max_def using fin ne by (rule Max_in)
  then show "0 < np_max S" using assms(2) by blast
  show "\<forall>x \<in> set (cells S). x \<le> np_max S"
    unfolding np_max_def using fin by simp
qed

lemma np_max_scaled:
  assumes "cells S \<noteq> []" and "0 < c"
  shows "np_max (scaled c S) = c * np_max S"
proof -
  have fin: "finite (set (cells S))" and ne: "set (cells S) \<noteq> {}"
    using assms(1) by simp_all
  have "mono (\<lambda>x. c * x)"
    using assms(2) by (auto intro: monoI mult_left_mono)
  then have "c * Max (set (cells S)) = Max ((\<lambda>x. c * x) ` set (cells S))"
    using fin ne by (rule mono_Max_commute)
  then show ?thesis by (simp add: np_max_def scaled_def)
qed

lemma power_to_db_max_zero:
  assumes "cells S \<noteq> []" and "\<forall>x \<in> set (cells S). 0 < x"
  shows "Max (set (cells (power_to_db S np_max))) = 0"
proof -
  let ?M = "np_max S"
  let ?db = "\<lambda>x. 10 * log 10 (x / ?M)"
  note M = np_max_positive [OF assms]
  have cells: "set (cells (power_to_db S np_max)) = ?db ` set (cells S)"
    by (simp add: power_to_db_def)
  have top: "?db ?M = 0"
    using M(1) by simp
  have le: "?db x \<le> 0" if "x \<in> set (cells S)" for x
  proof -
    have "0 < x / ?M" and "x / ?M \<le> 1"
      using that assms(2) M(1) M(3) by simp_all
    then have "log 10 (x / ?M) \<le> 0" by simp
    then show ?thesis by simp
  qed
  show ?thesis
    unfolding cells
  proof (rule Max_eqI)
    show "finite (?db ` set (cells S))" by simp
    show "y \<le> 0" if "y \<in> ?db ` set (cells S)" for y
      using that le by auto
    show "0 \<in> ?db ` set (cells S)"
      using M(2) top by (metis image_eqI)
  qed
qed

lemma power_to_db_scaled:
  assumes "cells S \<noteq> []" and "0 < c"
  shows "power_to_db (scaled c S) np_max = power_to_db S np_max"
proof -
  have m: "np_max (scaled c S) = c * np_max S"
    by (rule np_max_scaled [OF assms])
  have "power_to_db (scaled c S) np_max =
      (scaled c S)\<lparr>cells := map (\<lambda>x. 10 * log 10 (x / (c * np_max S))) (cells (scaled c S))\<rparr>"
    by (simp add: power_to_db_def m)
  also have "\<dots> = S\<lparr>cells := map (\<lambda>x. 10 * log 10 ((c * x) / (c * np_max S))) (cells S)\<rparr>"
    by (simp add: scaled_def comp_def)
  also have "\<dots> = power_to_db S np_max"
    using assms(2) by (simp add: power_to_db_def)
  finally show ?thesis .
qed

section \<open>Claims\<close>

text \<open>
  C1, as the program behaves. Nothing is ever removed from the output directories. In
  the run below the only file is decoded and its waveform written, then the extraction
  raises: \<^verbatim>\<open>audio/0000.wav\<close> stays, \<^verbatim>\<open>mels/0000.npy\<close> does not exist, and the run goes on
  to return an empty manifest.
\<close>

theorem orphan_waveform_counterexample:
  "fmt04 0 @ ''.wav'' \<in>
     audio_dir (fst (process_directory default_config env_extract_fails None world0)) \<and>
   fmt04 0 @ ''.npy'' \<notin>
     mel_dir (fst (process_directory default_config env_extract_fails None world0)) \<and>
   snd (process_directory default_config env_extract_fails None world0) = Inr []"
  by code_simp

text \<open>
  C1, amended: \<^verbatim>\<open>process_directory\<close> removes no file. For every run and every index, a
  spectrogram file \<^verbatim>\<open>mels/NNNN.npy\<close> that the run created has its waveform file
  \<^verbatim>\<open>audio/NNNN.wav\<close>. In a run that returns, both files of every manifest record exist, and
  every waveform file that was written is still there at the end, also when the rest of
  the processing of its input file failed (whether or not a spectrogram file of that
  index exists).
\<close>

theorem spectrogram_file_has_waveform_file:
  assumes run: "process_directory self env max_files w = (w', res)"
  shows "audio_dir w \<subseteq> audio_dir w' \<and> mel_dir w \<subseteq> mel_dir w' \<and>
    (\<forall>idx. fmt04 idx @ ''.npy'' \<in> mel_dir w' \<and> fmt04 idx @ ''.npy'' \<notin> mel_dir w \<longrightarrow>
       fmt04 idx @ ''.wav'' \<in> audio_dir w') \<and>
    (\<forall>md. res = Inr md \<longrightarrow>
       (\<forall>r \<in> set md. audio_file r \<in> audio_dir w' \<and> mel_file r \<in> mel_dir w') \<and>
       (\<forall>(i, p) \<in> set (List.enumerate 0 (discover env max_files)).
          \<forall>audio. load_audio self env p = Inr audio \<and>
                  sf_write env (fmt04 i @ ''.wav'') audio = Written \<longrightarrow>
                  fmt04 i @ ''.wav'' \<in> audio_dir w'))"
proof -
  let ?files = "discover env max_files"
  let ?L = "process_loop self env 0 ?files (loop_start env max_files w) []"
  note start = loop_start_keeps [of env max_files w]
  have w': "w' = fst (process_directory self env max_files w)"
    and res: "res = snd (process_directory self env max_files w)"
    using run by simp_all
  from process_directory_cases [of self env max_files w]
  consider
    (raised) "audio_dir w' = audio_dir w" "mel_dir w' = mel_dir w" "isl res"
  | (looped) "audio_dir w' = audio_dir (fst ?L)" "mel_dir w' = mel_dir (fst ?L)"
      "\<forall>md. res = Inr md \<longrightarrow> snd ?L = Inr md"
    unfolding w' res by blast
  then show ?thesis
  proof cases
    case raised
    then show ?thesis by auto
  next
    case looped
    have mono: "audio_dir w \<subseteq> audio_dir w'" "mel_dir w \<subseteq> mel_dir w'"
      using process_loop_dirs_mono [of "loop_start env max_files w" self env 0 ?files "[]"]
        start looped(1,2)
      by simp_all
    have paired: "fmt04 idx @ ''.wav'' \<in> audio_dir w'"
      if "fmt04 idx @ ''.npy'' \<in> mel_dir w'" "fmt04 idx @ ''.npy'' \<notin> mel_dir w" for idx
    proof -
      have "fmt04 idx @ ''.npy'' \<in> mel_dir (fst ?L)"
        and "fmt04 idx @ ''.npy'' \<notin> mel_dir (loop_start env max_files w)"
        using that start looped(2) by simp_all
      then obtain s where "fmt04 idx @ ''.npy'' = s @ ''.npy''"
        and "s @ ''.wav'' \<in> audio_dir (fst ?L)"
        using process_loop_new_mel by blast
      then show ?thesis using looped(1) by simp
    qed
    have both: "audio_file r \<in> audio_dir w' \<and> mel_file r \<in> mel_dir w'"
      if "res = Inr md" "r \<in> set md" for md r
    proof -
      have L: "snd ?L = Inr md" using that(1) looped(3) by simp
      then have "md = results_from self env 0 ?files"
        using process_loop_returns [of self env 0 ?files "loop_start env max_files w" "[]" md]
        by simp
      then have "r \<in> set (results_from self env 0 ?files)" using that(2) by simp
      then show ?thesis
        using process_loop_success_files [OF L] looped(1,2) by simp
    qed
    have kept: "fmt04 i @ ''.wav'' \<in> audio_dir w'"
      if "res = Inr md" "(i, p) \<in> set (List.enumerate 0 ?files)"
        "load_audio self env p = Inr audio" "sf_write env (fmt04 i @ ''.wav'') audio = Written"
      for md i p audio
    proof -
      have L: "snd ?L = Inr md" using that(1) looped(3) by simp
      show ?thesis
        using process_loop_written_wav [OF L that(2,3,4)] looped(1) by simp
    qed
    show ?thesis using mono paired both kept by blast
  qed
qed

theorem spectrogram_file_has_waveform_file_witness:
  "fmt04 0 @ ''.npy'' \<in> mel_dir (fst run_second_corrupt) \<and>
   fmt04 0 @ ''.npy'' \<notin> mel_dir world0 \<and>
   fmt04 0 @ ''.wav'' \<in> audio_dir (fst run_second_corrupt) \<and>
   snd run_second_corrupt = Inr (projr (snd run_second_corrupt)) \<and>
   hd (projr (snd run_second_corrupt)) \<in> set (projr (snd run_second_corrupt)) \<and>
   audio_file (hd (projr (snd run_second_corrupt))) \<in> audio_dir (fst run_second_corrupt) \<and>
   mel_file (hd (projr (snd run_second_corrupt))) \<in> mel_dir (fst run_second_corrupt) \<and>
   snd run_all_fail = Inr [] \<and>
   (0, ''a.mp3'') \<in> set (List.enumerate 0 (discover env_extract_fails None)) \<and>
   load_audio default_config env_extract_fails ''a.mp3'' = Inr [0, 1 / 2] \<and>
   sf_write env_extract_fails (fmt04 0 @ ''.wav'') [0, 1 / 2] = Written \<and>
   \<not> succeeds default_config env_extract_fails 0 ''a.mp3'' \<and>
   fmt04 0 @ ''.wav'' \<in> audio_dir (fst run_all_fail)"
proof -
  have run: "process_directory default_config env_second_corrupt None world0 =
      (fst run_second_corrupt, snd run_second_corrupt)"
    by (simp add: run_second_corrupt_def)
  note T = spectrogram_file_has_waveform_file [OF run]
  have h1: "fmt04 0 @ ''.npy'' \<in> mel_dir (fst run_second_corrupt)"
    by code_simp
  have h2: "fmt04 0 @ ''.npy'' \<notin> mel_dir world0"
    by code_simp
  have h3: "snd run_second_corrupt = Inr (projr (snd run_second_corrupt))"
    by code_simp
  have h4: "hd (projr (snd run_second_corrupt)) \<in> set (projr (snd run_second_corrupt))"
    by code_simp
  have c1: "fmt04 0 @ ''.wav'' \<in> audio_dir (fst run_second_corrupt)"
    using T h1 h2 by blast
  have c2: "audio_file (hd (projr (snd run_second_corrupt))) \<in> audio_dir (fst run_second_corrupt) \<and>
      mel_file (hd (projr (snd run_second_corrupt))) \<in> mel_dir (fst run_second_corrupt)"
    using T h3 h4 by blast
  have run': "process_directory default_config env_extract_fails None world0 =
      (fst run_all_fail, snd run_all_fail)"
    by (simp add: run_all_fail_def)
  note T' = spectrogram_file_has_waveform_file [OF run']
  have g1: "snd run_all_fail = Inr []" by code_simp
  have g2: "(0, ''a.mp3'') \<in> set (List.enumerate 0 (discover env_extract_fails None))"
    by code_simp
  have g3: "load_audio default_config env_extract_fails ''a.mp3'' = Inr [0, 1 / 2]"
    by code_simp
  have g4: "sf_write env_extract_fails (fmt04 0 @ ''.wav'') [0, 1 / 2] = Written"
    by code_simp
  have g5: "\<not> succeeds default_config env_extract_fails 0 ''a.mp3''"
    by code_simp
  have c3: "fmt04 0 @ ''.wav'' \<in> audio_dir (fst run_all_fail)"
    using T' g1 g2 g3 g4 by blast
  show ?thesis
    using h1 h2 h3 h4 c1 c2 g1 g2 g3 g4 g5 c3 by blast
qed




text \<open>
  C3, as the program behaves: with the input directory missing the script ends with
  exit status 0.
\<close>

theorem missing_input_exit_status_counterexample:
  "\<not> input_dir_exists env_missing \<and> snd (run_script env_missing world0) = 0"
  by code_simp

text \<open>
  C3, amended: whenever the input directory does not exist and the standard output
  takes the message, \<^verbatim>\<open>main\<close> prints the message that the input directory was not found
  and returns at once: nothing else is printed, no file is processed or written, and
  the script terminates normally, with exit status 0.
\<close>

theorem missing_input_returns_normally:
  assumes "\<not> input_dir_exists env" and "stdout_write env Input_dir_not_found = None"
  shows "main env w = (w\<lparr>stdout := stdout w @ [Input_dir_not_found]\<rparr>, Inr ()) \<and>
         run_script env w = (w\<lparr>stdout := stdout w @ [Input_dir_not_found]\<rparr>, 0)"
  using assms by (simp add: run_script_def main_def exit_status_def print_def)

theorem missing_input_returns_normally_witness:
  "\<not> input_dir_exists env_missing \<and> stdout_write env_missing Input_dir_not_found = None \<and>
   run_script env_missing world0 = (world0\<lparr>stdout := stdout world0 @ [Input_dir_not_found]\<rparr>, 0)"
proof -
  have h: "\<not> input_dir_exists env_missing" by code_simp
  have p: "stdout_write env_missing Input_dir_not_found = None" by code_simp
  show ?thesis using h p missing_input_returns_normally [OF h p, of world0] by simp
qed




text \<open>
  C5: the \<^verbatim>\<open>id\<close>, the original name and the two output file names of the manifest records
  are those of Python's \<^verbatim>\<open>enumerate\<close> over the (possibly cut) discovery list, restricted
  to the successful files: the index is the position in that list. A position whose
  file failed is the id of no record, and a position whose file succeeded is the id of
  one, so a failure leaves a gap instead of shifting later ids down.
\<close>

theorem ids_follow_discovery_position:
  assumes "process_directory self env max_files w = (w', Inr md)"
  shows "map (\<lambda>r. (id_r r, original_file r, audio_file r, mel_file r)) md =
      map (\<lambda>(i, p). (i, p, fmt04 i @ ''.wav'', fmt04 i @ ''.npy''))
        (filter (\<lambda>(i, p). succeeds self env i p) (List.enumerate 0 (discover env max_files))) \<and>
    (\<forall>i < length (discover env max_files).
       (i \<in> id_r ` set md) = succeeds self env i (discover env max_files ! i))"
proof -
  let ?files = "discover env max_files"
  let ?ok = "filter (\<lambda>(i, p). succeeds self env i p) (List.enumerate 0 ?files)"
  have md: "md = results_from self env 0 ?files"
    using process_directory_Inr [OF assms] by simp
  have eq: "map (\<lambda>r. (id_r r, original_file r, audio_file r, mel_file r)) md =
      map (\<lambda>(i, p). (i, p, fmt04 i @ ''.wav'', fmt04 i @ ''.npy'')) ?ok"
    unfolding md by (rule results_from_enumerate)
  have "map id_r md = map fst ?ok"
    using arg_cong [OF eq, of "map fst"] by (simp add: case_prod_beta comp_def)
  then have ids: "id_r ` set md = fst ` set ?ok"
    by (metis set_map)
  have "(i \<in> id_r ` set md) = succeeds self env i (?files ! i)" if "i < length ?files" for i
  proof
    assume "i \<in> id_r ` set md"
    then obtain p where "(i, p) \<in> set (List.enumerate 0 ?files)" "succeeds self env i p"
      unfolding ids by auto
    then show "succeeds self env i (?files ! i)"
      by (simp add: in_set_enumerate_eq)
  next
    assume "succeeds self env i (?files ! i)"
    moreover have "(i, ?files ! i) \<in> set (List.enumerate 0 ?files)"
      using that by (simp add: in_set_enumerate_eq)
    ultimately have "(i, ?files ! i) \<in> set ?ok" by simp
    then show "i \<in> id_r ` set md"
      unfolding ids by force
  qed
  then show ?thesis using eq by blast
qed

theorem ids_follow_discovery_position_witness:
  "snd run_second_corrupt = Inr (projr (snd run_second_corrupt)) \<and>
   \<not> succeeds default_config env_second_corrupt 1 (discover env_second_corrupt None ! 1) \<and>
   succeeds default_config env_second_corrupt 2 (discover env_second_corrupt None ! 2) \<and>
   1 \<notin> id_r ` set (projr (snd run_second_corrupt)) \<and>
   2 \<in> id_r ` set (projr (snd run_second_corrupt)) \<and>
   map (\<lambda>r. (id_r r, original_file r, audio_file r, mel_file r)) (projr (snd run_second_corrupt)) =
     [(0, ''a.mp3'', ''0000.wav'', ''0000.npy''), (2, ''c.mp3'', ''0002.wav'', ''0002.npy'')]"
proof -
  have r: "snd run_second_corrupt = Inr (projr (snd run_second_corrupt))" by code_simp
  then have run: "process_directory default_config env_second_corrupt None world0 =
      (fst run_second_corrupt, Inr (projr (snd run_second_corrupt)))"
    by (simp add: run_second_corrupt_def prod_eq_iff)
  note T = ids_follow_discovery_position [OF run]
  have n: "1 < length (discover env_second_corrupt None)" "2 < length (discover env_second_corrupt None)"
    by code_simp+
  have s1: "\<not> succeeds default_config env_second_corrupt 1 (discover env_second_corrupt None ! 1)"
    by code_simp
  have s2: "succeeds default_config env_second_corrupt 2 (discover env_second_corrupt None ! 2)"
    by code_simp
  have ok: "map (\<lambda>(i, p). (i, p, fmt04 i @ ''.wav'', fmt04 i @ ''.npy''))
        (filter (\<lambda>(i, p). succeeds default_config env_second_corrupt i p)
           (List.enumerate 0 (discover env_second_corrupt None))) =
     [(0, ''a.mp3'', ''0000.wav'', ''0000.npy''), (2, ''c.mp3'', ''0002.wav'', ''0002.npy'')]"
    by code_simp
  have c1: "1 \<notin> id_r ` set (projr (snd run_second_corrupt))"
    using T n(1) s1 by blast
  have c2: "2 \<in> id_r ` set (projr (snd run_second_corrupt))"
    using T n(2) s2 by blast
  have c3: "map (\<lambda>r. (id_r r, original_file r, audio_file r, mel_file r)) (projr (snd run_second_corrupt)) =
     [(0, ''a.mp3'', ''0000.wav'', ''0000.npy''), (2, ''c.mp3'', ''0002.wav'', ''0002.npy'')]"
    using T ok by simp
  show ?thesis using r s1 s2 c1 c2 c3 by blast
qed



text \<open>
  C8: in every run of \<^verbatim>\<open>main\<close> that reaches the summary, the total duration it reports
  is the sum of the \<^verbatim>\<open>duration\<close> fields of the manifest written to \<^verbatim>\<open>metadata.json\<close> (the
  figure is printed in minutes, the sum divided by 60), the average it reports is that
  total divided by the number of records whenever there is at least one, and with an
  empty manifest no figure is printed and no division takes place: with a standard
  output that takes every line, the only exception that can leave \<^verbatim>\<open>main\<close> after the
  summary is one from writing \<^verbatim>\<open>config.json\<close>.
\<close>

theorem summary_statistics:
  assumes "input_dir_exists env" and "outputs_writable env" and "stdout_ok env"
  shows "\<exists>md pre figs post.
     metadata_json (fst (main env w)) = Some md \<and>
     stdout (fst (main env w)) = pre @ [Total_files (length md)] @ figs @ post \<and>
     (md \<noteq> [] \<longrightarrow>
        (\<exists>total. total = sum_list (map duration md) \<and>
           figs = [Total_duration_minutes (total / 60),
                   Average_duration_seconds (total / real (length md))])) \<and>
     (md = [] \<longrightarrow> figs = []) \<and>
     (case json_dump env ''config.json'' of
        None \<Rightarrow> post = [Config_saved] \<and> snd (main env w) = Inr ()
      | Some e \<Rightarrow> post = [] \<and> snd (main env w) = Inl e)"
proof -
  let ?md = "results_from default_config env 0 (discover env None)"
  obtain w1 where hd: "print_header env default_config w = (w1, None)"
    using print_header_returns [OF assms(3)] by blast
  obtain w2 where pd: "process_directory default_config env None w1 = (w2, Inr ?md)"
    using process_directory_ok [OF assms(2,3), of default_config None w1]
    by (metis prod.collapse)
  have man: "metadata_json w2 = Some ?md"
    using process_directory_Inr [OF pd] by simp
  obtain w3 where
    s: "print_summary env ?md w2 = (w3, None)"
    and out: "stdout w3 = stdout w2 @ [Banner rule_line, Banner ''PREPROCESSING COMPLETE'',
        Banner rule_line, Total_files (length ?md)] @ summary_figures ?md"
    and keep: "metadata_json w3 = metadata_json w2"
    using print_summary_returns [OF assms(3), of ?md w2] by blast
  define pre where "pre = stdout w2 @ [Banner rule_line, Banner ''PREPROCESSING COMPLETE'',
        Banner rule_line]"
  have out': "stdout w3 = pre @ [Total_files (length ?md)] @ summary_figures ?md"
    using out by (simp add: pre_def)
  have m: "main env w =
      (case json_dump env ''config.json'' of
         Some e \<Rightarrow> (w3, Inl e)
       | None \<Rightarrow>
           (w3\<lparr>config_json := Some default_config, stdout := stdout w3 @ [Config_saved]\<rparr>,
            Inr ()))"
    using assms(1)
    by (simp add: main_def Let_def hd pd s print_ok [OF assms(3)] split: option.splits)
  have figs: "(?md \<noteq> [] \<longrightarrow>
        (\<exists>total. total = sum_list (map duration ?md) \<and>
           summary_figures ?md = [Total_duration_minutes (total / 60),
                   Average_duration_seconds (total / real (length ?md))])) \<and>
     (?md = [] \<longrightarrow> summary_figures ?md = [])"
    by (simp add: summary_figures_def)
  show ?thesis
  proof (cases "json_dump env ''config.json''")
    case None
    have "metadata_json (fst (main env w)) = Some ?md"
      and "stdout (fst (main env w)) =
        pre @ [Total_files (length ?md)] @ summary_figures ?md @ [Config_saved]"
      and "snd (main env w) = Inr ()"
      using m None keep man out' by simp_all
    then show ?thesis using None figs
      by (intro exI [of _ ?md] exI [of _ pre] exI [of _ "summary_figures ?md"]
          exI [of _ "[Config_saved]"]) simp
  next
    case (Some e)
    have "metadata_json (fst (main env w)) = Some ?md"
      and "stdout (fst (main env w)) = pre @ [Total_files (length ?md)] @ summary_figures ?md @ []"
      and "snd (main env w) = Inl e"
      using m Some keep man out' by simp_all
    then show ?thesis using Some figs
      by (intro exI [of _ ?md] exI [of _ pre] exI [of _ "summary_figures ?md"]
          exI [of _ "[]"]) simp
  qed
qed

theorem summary_statistics_witness:
  "input_dir_exists env_second_corrupt \<and> outputs_writable env_second_corrupt \<and>
   stdout_ok env_second_corrupt \<and>
   the (metadata_json (fst main_second_corrupt)) \<noteq> [] \<and>
   Total_duration_minutes
     (sum_list (map duration (the (metadata_json (fst main_second_corrupt)))) / 60)
     \<in> set (stdout (fst main_second_corrupt)) \<and>
   Average_duration_seconds
     (sum_list (map duration (the (metadata_json (fst main_second_corrupt)))) /
      real (length (the (metadata_json (fst main_second_corrupt)))))
     \<in> set (stdout (fst main_second_corrupt)) \<and>
   input_dir_exists env_extract_fails \<and> outputs_writable env_extract_fails \<and>
   stdout_ok env_extract_fails \<and>
   metadata_json (fst main_all_fail) = Some [] \<and>
   json_dump env_extract_fails ''config.json'' = None \<and>
   snd main_all_fail = Inr ()"
proof -
  have h1: "input_dir_exists env_second_corrupt" by code_simp
  have h2: "outputs_writable env_second_corrupt" by code_simp
  have h3: "stdout_ok env_second_corrupt"
    by (simp add: stdout_ok_def env_second_corrupt_def env_base_def)
  have ne: "the (metadata_json (fst main_second_corrupt)) \<noteq> []" by code_simp
  obtain md pre figs post where
    man: "metadata_json (fst (main env_second_corrupt world0)) = Some md"
    and out: "stdout (fst (main env_second_corrupt world0)) =
        pre @ [Total_files (length md)] @ figs @ post"
    and figs: "md \<noteq> [] \<longrightarrow>
        (\<exists>total. total = sum_list (map duration md) \<and>
           figs = [Total_duration_minutes (total / 60),
                   Average_duration_seconds (total / real (length md))])"
    using summary_statistics [OF h1 h2 h3, of world0] by blast
  have md: "the (metadata_json (fst main_second_corrupt)) = md"
    using man by (simp add: main_second_corrupt_def)
  have "figs = [Total_duration_minutes (sum_list (map duration md) / 60),
                Average_duration_seconds (sum_list (map duration md) / real (length md))]"
    using figs ne md by blast
  then have c1: "Total_duration_minutes (sum_list (map duration md) / 60)
       \<in> set (stdout (fst main_second_corrupt))"
    and c2: "Average_duration_seconds (sum_list (map duration md) / real (length md))
       \<in> set (stdout (fst main_second_corrupt))"
    using out by (simp_all add: main_second_corrupt_def)
  have g1: "input_dir_exists env_extract_fails" by code_simp
  have g2: "outputs_writable env_extract_fails" by code_simp
  have g0: "stdout_ok env_extract_fails"
    by (simp add: stdout_ok_def env_extract_fails_def env_base_def)
  have g3: "metadata_json (fst main_all_fail) = Some []" by code_simp
  have g4: "json_dump env_extract_fails ''config.json'' = None" by code_simp
  have "case json_dump env_extract_fails ''config.json'' of
        None \<Rightarrow> snd (main env_extract_fails world0) = Inr ()
      | Some e \<Rightarrow> snd (main env_extract_fails world0) = Inl e"
    using summary_statistics [OF g1 g2 g0, of world0] by (auto split: option.splits)
  then have c3: "snd main_all_fail = Inr ()"
    using g4 by (simp add: main_all_fail_def)
  show ?thesis
    using h1 h2 h3 ne c1 c2 g1 g2 g0 g3 g4 c3 unfolding md by blast
qed

text \<open>
  C9: \<^verbatim>\<open>if max_files:\<close> tests truthiness, so a cap of 0 is no cap: the list of discovered
  files is not cut and the whole run is the run without a cap.
\<close>

theorem cap_zero_is_no_cap:
  "discover env (Some 0) = glob_mp3 env \<and>
   process_directory self env (Some 0) w = process_directory self env None w"
proof -
  have d: "discover env (Some 0) = discover env None"
    by (simp add: discover_def truthy_def)
  have "discover env None = glob_mp3 env"
    by (simp add: discover_def truthy_def)
  then show ?thesis
    unfolding process_directory_def d by simp
qed



end
